theory Spec2Isabelle
  imports Complex_Main "HOL-Library.Word"
begin

section \<open>The batching core of gfx: data model\<close>

text \<open>
  The development embeds the Go sources of the batcher (\<^verbatim>\<open>mergeObjects\<close>, \<^verbatim>\<open>Batch\<close>,
  \<^verbatim>\<open>batch.matches\<close> and the methods of \<^verbatim>\<open>Batcher\<close>).  Pointers are natural numbers, a nil
  pointer is \<open>None\<close>.  A panic is a value: every function that can panic returns
  \<open>panic + result\<close>, and a panic unwinds the whole call, so no state is returned with it.
  Locks (\<^verbatim>\<open>RLock\<close>, \<^verbatim>\<open>access.Lock\<close>) have no effect on the sequential behaviour and are
  left out.
\<close>

type_synonym ptr = nat

datatype panic =
    Panic string
  | NilDereference
  | SliceBounds
  | IndexRange

text \<open>
  \<^verbatim>\<open>State\<close> is a comparable struct declared outside the sources; the batcher only copies it
  and compares it with \<^verbatim>\<open>==\<close>, so it is an opaque value with decidable equality.
\<close>

type_synonym State = nat

type_synonym Vec3 = "real \<times> real \<times> real"
type_synonym Color = "real \<times> real \<times> real \<times> real"
type_synonym TexCoord = "real \<times> real"

text \<open>
  Modelled from the spec: the \<^verbatim>\<open>Mesh\<close> type (its declaration is not among the sources).
  The spec lists the vertex-attribute channels positions, normals, colors, texture
  coordinates and custom attributes, an optional index array and the caching flags; the
  fields \<^verbatim>\<open>KeepDataOnLoad\<close>, \<^verbatim>\<open>Dynamic\<close>, \<^verbatim>\<open>AABB\<close>, \<^verbatim>\<open>Indices\<close>, \<^verbatim>\<open>Vertices\<close> and \<^verbatim>\<open>Colors\<close>
  are the ones the sources and their tests name.  Indices are \<^verbatim>\<open>uint32\<close>.
\<close>

record Mesh =
  KeepDataOnLoad :: bool
  Dynamic :: bool
  AABB :: "Vec3 \<times> Vec3"
  Indices :: "32 word list"
  Vertices :: "Vec3 list"
  Colors :: "Color list"
  Normals :: "Vec3 list"
  TexCoords :: "TexCoord list"
  Attribs :: "real list"

definition Rect3Zero :: "Vec3 \<times> Vec3" where
  "Rect3Zero = ((0, 0, 0), (0, 0, 0))"

text \<open>Modelled from the spec: \<^verbatim>\<open>NewMesh()\<close> produces an empty, default mesh.\<close>

definition NewMesh :: Mesh where
  "NewMesh = \<lparr>KeepDataOnLoad = False, Dynamic = False, AABB = Rect3Zero, Indices = [],
     Vertices = [], Colors = [], Normals = [], TexCoords = [], Attribs = []\<rparr>"

text \<open>
  Modelled from the spec: the mesh signature \<^verbatim>\<open>meshType\<close> and \<^verbatim>\<open>newMeshType\<close> (declared
  outside the sources): which channels are populated, and whether the mesh is indexed.
\<close>

record meshType =
  mtIndices :: bool
  mtVertices :: bool
  mtColors :: bool
  mtNormals :: bool
  mtTexCoords :: bool
  mtAttribs :: bool

definition newMeshType :: "Mesh \<Rightarrow> meshType" where
  "newMeshType m = \<lparr>mtIndices = (Indices m \<noteq> []), mtVertices = (Vertices m \<noteq> []),
     mtColors = (Colors m \<noteq> []), mtNormals = (Normals m \<noteq> []),
     mtTexCoords = (TexCoords m \<noteq> []), mtAttribs = (Attribs m \<noteq> [])\<rparr>"

text \<open>
  Modelled from the spec: the first channel on which two signatures differ in presence,
  as the error message that names it; \<open>None\<close> is the nil error.
\<close>

definition channelMismatch :: "meshType \<Rightarrow> meshType \<Rightarrow> string option" where
  "channelMismatch a b =
     (if mtVertices a \<noteq> mtVertices b then Some ''Vertices''
      else if mtColors a \<noteq> mtColors b then Some ''Colors''
      else if mtNormals a \<noteq> mtNormals b then Some ''Normals''
      else if mtTexCoords a \<noteq> mtTexCoords b then Some ''TexCoords''
      else if mtAttribs a \<noteq> mtAttribs b then Some ''Attribs''
      else None)"

text \<open>
  Modelled from the spec: \<^verbatim>\<open>meshType.equals\<close>.  Two signatures are equal iff every
  presence flag matches and both are indexed or both are not.
\<close>

definition equals :: "meshType \<Rightarrow> meshType \<Rightarrow> string option" where
  "equals a b =
     (if mtIndices a \<noteq> mtIndices b then Some ''Indices'' else channelMismatch a b)"

text \<open>
  Modelled from the spec: \<^verbatim>\<open>Mesh.canAppend\<close>.  The presence sets must be identical; the
  presence of indices need not match.
\<close>

definition canAppend :: "Mesh \<Rightarrow> Mesh \<Rightarrow> string option" where
  "canAppend a b = channelMismatch (newMeshType a) (newMeshType b)"

text \<open>
  Reading the elements of a data slice through an index array, as \<^verbatim>\<open>xs[i]\<close> does for each
  index: an index out of range panics.
\<close>

fun gather :: "'a list \<Rightarrow> 32 word list \<Rightarrow> panic + 'a list" where
  "gather xs [] = Inr []"
| "gather xs (i # is) =
     (if unat i < length xs
      then (case gather xs is of Inl e \<Rightarrow> Inl e | Inr ys \<Rightarrow> Inr (xs ! unat i # ys))
      else Inl IndexRange)"

text \<open>
  One channel of \<^verbatim>\<open>append\<close>: a present array of the target gets the other mesh's array
  appended; \<open>deindex\<close> holds when the target is not indexed and the other mesh is, where
  the other mesh's elements are taken in the order of its indices.
\<close>

definition appendChannel :: "bool \<Rightarrow> 32 word list \<Rightarrow> 'a list \<Rightarrow> 'a list \<Rightarrow> panic + 'a list" where
  "appendChannel deindex idx xs ys =
     (if xs = [] then Inr []
      else if deindex then (case gather ys idx of Inl e \<Rightarrow> Inl e | Inr zs \<Rightarrow> Inr (xs @ zs))
      else Inr (xs @ ys))"

text \<open>
  The index array after \<^verbatim>\<open>append\<close>.  Both indexed: the other mesh's indices follow, each
  offset by the target's vertex count before the append.  Target indexed, other not:
  the indices \<open>0 .. len(b) - 1\<close>, offset likewise, follow.  Target not indexed: it stays
  so.  The arithmetic is that of \<^verbatim>\<open>uint32\<close>.
\<close>

definition appendIndices :: "Mesh \<Rightarrow> Mesh \<Rightarrow> 32 word list" where
  "appendIndices a b =
     (if Indices a = [] then []
      else if Indices b \<noteq> []
        then Indices a @ map (\<lambda>i. of_nat (length (Vertices a)) + i) (Indices b)
      else Indices a @ map (\<lambda>k. of_nat (length (Vertices a)) + of_nat k) [0 ..< length (Vertices b)])"

text \<open>
  Modelled from the spec: \<^verbatim>\<open>Mesh.append\<close> (the method is not among the sources; its test
  table \<^verbatim>\<open>meshAppendTests\<close> is).  The case of a target without indices and an indexed
  other mesh follows the test table, which expects the other mesh's vertices in the order
  of its indices.  The bounding volume is reset for recomputation.
\<close>

definition append_mesh :: "Mesh \<Rightarrow> Mesh \<Rightarrow> panic + Mesh" where
  "append_mesh a b =
     (let deindex = (Indices a = [] \<and> Indices b \<noteq> []); idx = Indices b in
      (case appendChannel deindex idx (Vertices a) (Vertices b) of Inl e \<Rightarrow> Inl e | Inr vs \<Rightarrow>
      (case appendChannel deindex idx (Colors a) (Colors b) of Inl e \<Rightarrow> Inl e | Inr cs \<Rightarrow>
      (case appendChannel deindex idx (Normals a) (Normals b) of Inl e \<Rightarrow> Inl e | Inr ns \<Rightarrow>
      (case appendChannel deindex idx (TexCoords a) (TexCoords b) of Inl e \<Rightarrow> Inl e | Inr ts \<Rightarrow>
      (case appendChannel deindex idx (Attribs a) (Attribs b) of Inl e \<Rightarrow> Inl e | Inr as \<Rightarrow>
        Inr (a\<lparr>AABB := Rect3Zero, Indices := appendIndices a b, Vertices := vs, Colors := cs,
               Normals := ns, TexCoords := ts, Attribs := as\<rparr>)))))))"

section \<open>Objects, batches and the heap\<close>

text \<open>
  A \<^verbatim>\<open>[]*Texture\<close> slice is a reference to a backing array in the heap together with its
  length: two slices may share an array, and a write through one is seen through the
  other.  A nil slice has length 0.  A texture or shader pointer may be nil.
\<close>

record slice =
  sarr :: ptr
  slen :: nat

text \<open>
  The fields of \<^verbatim>\<open>Object\<close> that the batcher reads (the type is declared outside the
  sources).  The meshes are held by value: the batcher never writes to a client mesh.
\<close>

record Object =
  State :: State
  Shader :: "ptr option"
  Textures :: slice
  Meshes :: "Mesh list"

text \<open>
  The struct \<^verbatim>\<open>batch\<close>.  The embedded \<^verbatim>\<open>*Object\<close> is the cached merged object, nil when the
  objects need to be merged; the merged object is owned by the batch and held by value.
  A nil \<^verbatim>\<open>meshType\<close> pointer is \<open>None\<close>.
\<close>

record batch =
  Object :: "Object option"
  stateType :: State
  shaderType :: "ptr option"
  textureType :: slice
  meshType :: "meshType option"
  objects :: "ptr list"

text \<open>
  The heap: the client's objects by pointer, the backing arrays of texture slices with
  the next free array, and the batches by pointer with the next free batch.  \<^verbatim>\<open>make\<close> and
  \<^verbatim>\<open>&batch{...}\<close> take the next free address.
\<close>

record heap =
  objs :: "ptr \<Rightarrow> Object"
  texs :: "ptr \<Rightarrow> ptr option list"
  texNext :: ptr
  bts :: "ptr \<Rightarrow> batch"
  btNext :: ptr

text \<open>The struct \<^verbatim>\<open>Batcher\<close>: the slice of batch pointers and the map from object to batch.\<close>

record Batcher =
  batches :: "ptr list"
  batchByObj :: "ptr \<rightharpoonup> ptr"

text \<open>What \<^verbatim>\<open>Canvas.Draw\<close> is called with: a client object or a merged one.\<close>

datatype drawn = DrawObject ptr | DrawMerged Object

definition sliceElems :: "heap \<Rightarrow> slice \<Rightarrow> ptr option list" where
  "sliceElems h s = take (slen s) (texs h (sarr s))"

text \<open>
  \<^verbatim>\<open>dst := make([]*Texture, len(src)); copy(dst, src)\<close>: a fresh array of nil pointers of
  the length of \<open>src\<close>, overwritten by the elements of \<open>src\<close>.
\<close>

definition copyTextures :: "heap \<Rightarrow> slice \<Rightarrow> heap \<times> slice" where
  "copyTextures h src =
     (let a = texNext h; n = slen src in
      (h\<lparr>texs := (texs h)(a := take n (sliceElems h src @ replicate n None)), texNext := Suc a\<rparr>,
       \<lparr>sarr = a, slen = n\<rparr>))"

section \<open>mergeObjects and Batch\<close>

text \<open>
  The inner loop of \<^verbatim>\<open>mergeObjects\<close> over the meshes of object number \<open>objN\<close>, from mesh
  number \<open>meshN\<close>; \<open>bm\<close> is the pointer \<^verbatim>\<open>batchMesh\<close>, nil until the first mesh of the first
  object has been copied.  Calling \<^verbatim>\<open>canAppend\<close> or \<^verbatim>\<open>append\<close> on a nil \<^verbatim>\<open>batchMesh\<close> reads
  the fields of a nil pointer.
\<close>

fun mergeMeshes :: "bool \<Rightarrow> nat \<Rightarrow> nat \<Rightarrow> Mesh list \<Rightarrow> Mesh option \<Rightarrow> panic + Mesh option" where
  "mergeMeshes checkMt objN meshN [] bm = Inr bm"
| "mergeMeshes checkMt objN meshN (mesh # ms) bm =
     (if objN = 0 \<and> meshN = 0
      then mergeMeshes checkMt objN (Suc meshN) ms
             (Some (mesh\<lparr>KeepDataOnLoad := False, Dynamic := False, AABB := Rect3Zero\<rparr>))
      else (case bm of
              None \<Rightarrow> Inl NilDereference
            | Some b \<Rightarrow>
                (case (if checkMt then canAppend b mesh else None) of
                   Some err \<Rightarrow> Inl (Panic (''Batch: '' @ err))
                 | None \<Rightarrow>
                     (case append_mesh b mesh of
                        Inl e \<Rightarrow> Inl e
                      | Inr b' \<Rightarrow> mergeMeshes checkMt objN (Suc meshN) ms (Some b')))))"

fun mergeLoop :: "bool \<Rightarrow> nat \<Rightarrow> Object list \<Rightarrow> Mesh option \<Rightarrow> panic + Mesh option" where
  "mergeLoop checkMt objN [] bm = Inr bm"
| "mergeLoop checkMt objN (obj # os) bm =
     (case mergeMeshes checkMt objN 0 (Meshes obj) bm of
        Inl e \<Rightarrow> Inl e
      | Inr bm' \<Rightarrow> mergeLoop checkMt (Suc objN) os bm')"

definition mergeObjects :: "bool \<Rightarrow> heap \<Rightarrow> ptr list \<Rightarrow> panic + heap \<times> Object" where
  "mergeObjects checkMt h ps =
     (case ps of
        [] \<Rightarrow> Inl (Panic ''Batch: no arguments'')
      | p0 # _ \<Rightarrow>
          (let (h1, ts) = copyTextures h (Textures (objs h p0)) in
           (case mergeLoop checkMt 0 (map (objs h) ps) None of
              Inl e \<Rightarrow> Inl e
            | Inr bm \<Rightarrow>
                Inr (h1, \<lparr>State = State (objs h p0), Shader = Shader (objs h p0), Textures = ts,
                          Meshes = (case bm of None \<Rightarrow> [] | Some m \<Rightarrow> [m])\<rparr>))))"

definition Batch :: "heap \<Rightarrow> ptr list \<Rightarrow> panic + heap \<times> Object" where
  "Batch h ps = mergeObjects True h ps"

section \<open>The batcher\<close>

text \<open>
  The texture loop of \<^verbatim>\<open>matches\<close>: for each element of the batch's texture type, the
  object's texture at the same index is read and compared.
\<close>

fun sameTextures :: "ptr option list \<Rightarrow> ptr option list \<Rightarrow> panic + bool" where
  "sameTextures [] os = Inr True"
| "sameTextures (t # ts) [] = Inl IndexRange"
| "sameTextures (t # ts) (ob # os) = (if ob \<noteq> t then Inr False else sameTextures ts os)"

text \<open>
  The mesh loop of \<^verbatim>\<open>matches\<close>: \<^verbatim>\<open>newMeshType(m).equals(*b.meshType)\<close> dereferences the
  batch's mesh type for every mesh of the object.
\<close>

fun meshesMatch :: "meshType option \<Rightarrow> Mesh list \<Rightarrow> panic + bool" where
  "meshesMatch mt [] = Inr True"
| "meshesMatch mt (m # ms) =
     (case mt of
        None \<Rightarrow> Inl NilDereference
      | Some t \<Rightarrow> (if equals (newMeshType m) t \<noteq> None then Inr False else meshesMatch mt ms))"

definition matches :: "heap \<Rightarrow> batch \<Rightarrow> ptr \<Rightarrow> panic + bool" where
  "matches h b x =
     (let obj = objs h x in
      if Shader obj \<noteq> shaderType b then Inr False
      else if slen (Textures obj) \<noteq> slen (textureType b) then Inr False
      else (case sameTextures (sliceElems h (textureType b)) (sliceElems h (Textures obj)) of
              Inl e \<Rightarrow> Inl e
            | Inr False \<Rightarrow> Inr False
            | Inr True \<Rightarrow>
                (if State obj \<noteq> stateType b then Inr False
                 else meshesMatch (meshType b) (Meshes obj))))"

fun findBatch :: "heap \<Rightarrow> ptr list \<Rightarrow> ptr \<Rightarrow> panic + ptr option" where
  "findBatch h [] x = Inr None"
| "findBatch h (p # ps) x =
     (case matches h (bts h p) x of
        Inl e \<Rightarrow> Inl e
      | Inr True \<Rightarrow> Inr (Some p)
      | Inr False \<Rightarrow> findBatch h ps x)"

text \<open>
  The loop of \<^verbatim>\<open>newBatch\<close> that compares the mesh type of every mesh of the object with
  that of the first: a difference leaves the batch with a nil mesh type.
\<close>

fun sharedMeshType :: "meshType \<Rightarrow> Mesh list \<Rightarrow> meshType option" where
  "sharedMeshType first [] = Some first"
| "sharedMeshType first (mesh # ms) =
     (if equals (newMeshType mesh) first \<noteq> None then None else sharedMeshType first ms)"

definition newBatch :: "heap \<Rightarrow> Batcher \<Rightarrow> ptr \<Rightarrow> heap \<times> Batcher" where
  "newBatch h B x =
     (let obj = objs h x;
          mt = (case Meshes obj of
                  [] \<Rightarrow> None
                | first # _ \<Rightarrow> sharedMeshType (newMeshType first) (Meshes obj));
          (h1, ts) = copyTextures h (Textures obj);
          p = btNext h1;
          bt = \<lparr>Object = None, stateType = State obj, shaderType = Shader obj,
                textureType = ts, meshType = mt, objects = [x]\<rparr>
      in (h1\<lparr>bts := (bts h1)(p := bt), btNext := Suc p\<rparr>,
          B\<lparr>batches := batches B @ [p], batchByObj := (batchByObj B)(x \<mapsto> p)\<rparr>))"

definition addToBatch :: "heap \<Rightarrow> Batcher \<Rightarrow> ptr \<Rightarrow> ptr \<Rightarrow> heap \<times> Batcher" where
  "addToBatch h B x p =
     (h\<lparr>bts := (bts h)(p := (bts h p)\<lparr>objects := objects (bts h p) @ [x], Object := None\<rparr>)\<rparr>,
      B\<lparr>batchByObj := (batchByObj B)(x \<mapsto> p)\<rparr>)"

text \<open>
  The loop \<^verbatim>\<open>for i, e := range s { if x != e { continue }; s = append(s[:i], s[i+1:]...) }\<close>
  of \<^verbatim>\<open>removeFromBatch\<close>.  The range runs over the \<open>n\<close> slots of the backing array \<open>a\<close>
  that the slice had when the loop began and reads slot \<open>i\<close> as it is then; \<open>l\<close> is the
  current length of the slice.  The append shifts the slots \<open>i + 1 .. l - 1\<close> down by one in
  place and leaves slot \<open>l - 1\<close> as it was; slicing from \<open>i + 1\<close> panics when \<open>i + 1\<close>
  exceeds the current length.
\<close>

function removeLoop :: "ptr \<Rightarrow> nat \<Rightarrow> nat \<Rightarrow> ptr list \<Rightarrow> nat \<Rightarrow> panic + ptr list" where
  "removeLoop x i n a l =
     (if i < n
      then (if a ! i \<noteq> x then removeLoop x (Suc i) n a l
            else if l < Suc i then Inl SliceBounds
            else removeLoop x (Suc i) n (take i a @ drop (Suc i) (take l a) @ drop (l - 1) a) (l - 1))
      else Inr (take l a))"
  by pat_completeness auto
termination
  by (relation "measure (\<lambda>(x, i, n, a, l). n - i)") auto

definition removeElem :: "ptr \<Rightarrow> ptr list \<Rightarrow> panic + ptr list" where
  "removeElem x s = removeLoop x 0 (length s) s (length s)"

definition removeFromBatch :: "heap \<Rightarrow> Batcher \<Rightarrow> ptr \<Rightarrow> ptr \<Rightarrow> panic + heap \<times> Batcher" where
  "removeFromBatch h B x p =
     (let bt = bts h p in
      if length (objects bt) = 1 \<and> objects bt ! 0 = x
      then (case removeElem p (batches B) of
              Inl e \<Rightarrow> Inl e
            | Inr bs \<Rightarrow> Inr (h, B\<lparr>batches := bs\<rparr>))
      else (case removeElem x (objects bt) of
              Inl e \<Rightarrow> Inl e
            | Inr os \<Rightarrow>
                Inr (h\<lparr>bts := (bts h)(p := bt\<lparr>objects := os, Object := None\<rparr>)\<rparr>,
                     B\<lparr>batchByObj := (batchByObj B)(x := None)\<rparr>)))"

text \<open>\<^verbatim>\<open>bt.Object = nil\<close>: the batch is marked for a new merge.\<close>

definition clearBatch :: "heap \<Rightarrow> ptr \<Rightarrow> heap" where
  "clearBatch h p = h\<lparr>bts := (bts h)(p := (bts h p)\<lparr>Object := None\<rparr>)\<rparr>"

text \<open>The body of the loop of \<^verbatim>\<open>Add\<close>, for one object, and \<^verbatim>\<open>Add\<close>.\<close>

definition AddObj :: "heap \<Rightarrow> Batcher \<Rightarrow> ptr \<Rightarrow> panic + heap \<times> Batcher" where
  "AddObj h B x =
     (case batchByObj B x of
        Some p \<Rightarrow> Inr (clearBatch h p, B)
      | None \<Rightarrow>
          (case findBatch h (batches B) x of
             Inl e \<Rightarrow> Inl e
           | Inr None \<Rightarrow> Inr (newBatch h B x)
           | Inr (Some p) \<Rightarrow> Inr (addToBatch h B x p)))"

fun Add :: "heap \<Rightarrow> Batcher \<Rightarrow> ptr list \<Rightarrow> panic + heap \<times> Batcher" where
  "Add h B [] = Inr (h, B)"
| "Add h B (x # xs) = (case AddObj h B x of Inl e \<Rightarrow> Inl e | Inr (h', B') \<Rightarrow> Add h' B' xs)"

text \<open>The body of the loop of \<^verbatim>\<open>Remove\<close>, and \<^verbatim>\<open>Remove\<close>.\<close>

definition RemoveObj :: "heap \<Rightarrow> Batcher \<Rightarrow> ptr \<Rightarrow> panic + heap \<times> Batcher" where
  "RemoveObj h B x =
     (case batchByObj B x of
        None \<Rightarrow> Inr (h, B)
      | Some p \<Rightarrow> removeFromBatch h B x p)"

fun Remove :: "heap \<Rightarrow> Batcher \<Rightarrow> ptr list \<Rightarrow> panic + heap \<times> Batcher" where
  "Remove h B [] = Inr (h, B)"
| "Remove h B (x # xs) = (case RemoveObj h B x of Inl e \<Rightarrow> Inl e | Inr (h', B') \<Rightarrow> Remove h' B' xs)"

text \<open>The body of the loop of \<^verbatim>\<open>Update\<close>, and \<^verbatim>\<open>Update\<close>.\<close>

definition UpdateObj :: "heap \<Rightarrow> Batcher \<Rightarrow> ptr \<Rightarrow> panic + heap \<times> Batcher" where
  "UpdateObj h B x =
     (case batchByObj B x of
        None \<Rightarrow> Inr (newBatch h B x)
      | Some p \<Rightarrow>
          (case matches h (bts h p) x of
             Inl e \<Rightarrow> Inl e
           | Inr False \<Rightarrow>
               (case removeFromBatch h B x p of
                  Inl e \<Rightarrow> Inl e
                | Inr (h1, B1) \<Rightarrow>
                    (case findBatch h1 (batches B1) x of
                       Inl e \<Rightarrow> Inl e
                     | Inr (Some w) \<Rightarrow> Inr (addToBatch h1 B1 x w)
                     | Inr None \<Rightarrow> Inr (newBatch h1 B1 x)))
           | Inr True \<Rightarrow> Inr (clearBatch h p, B)))"

fun Update :: "heap \<Rightarrow> Batcher \<Rightarrow> ptr list \<Rightarrow> panic + heap \<times> Batcher" where
  "Update h B [] = Inr (h, B)"
| "Update h B (x # xs) = (case UpdateObj h B x of Inl e \<Rightarrow> Inl e | Inr (h', B') \<Rightarrow> Update h' B' xs)"

text \<open>
  The loop of \<^verbatim>\<open>DrawTo\<close> over the batches; the canvas, the rectangle and the camera are
  the same for every call of \<^verbatim>\<open>Draw\<close>, which is recorded by the object drawn.
\<close>

fun drawBatches :: "heap \<Rightarrow> ptr list \<Rightarrow> panic + heap \<times> drawn list" where
  "drawBatches h [] = Inr (h, [])"
| "drawBatches h (p # ps) =
     (let bt = bts h p in
      if meshType bt = None
      then (case drawBatches h ps of
              Inl e \<Rightarrow> Inl e
            | Inr (h', ds) \<Rightarrow> Inr (h', map DrawObject (objects bt) @ ds))
      else (case (case Object bt of
                    Some ob \<Rightarrow> Inr (h, ob)
                  | None \<Rightarrow>
                      (case mergeObjects False h (objects bt) of
                         Inl e \<Rightarrow> Inl e
                       | Inr (h1, ob) \<Rightarrow>
                           Inr (h1\<lparr>bts := (bts h1)(p := (bts h1 p)\<lparr>Object := Some ob\<rparr>)\<rparr>, ob))) of
              Inl e \<Rightarrow> Inl e
            | Inr (h2, ob) \<Rightarrow>
                (case drawBatches h2 ps of
                   Inl e \<Rightarrow> Inl e
                 | Inr (h', ds) \<Rightarrow> Inr (h', DrawMerged ob # ds))))"

definition DrawTo :: "heap \<Rightarrow> Batcher \<Rightarrow> panic + heap \<times> Batcher \<times> drawn list" where
  "DrawTo h B =
     (case drawBatches h (batches B) of
        Inl e \<Rightarrow> Inl e
      | Inr (h', ds) \<Rightarrow> Inr (h', B, ds))"

definition NewBatcher :: "heap \<Rightarrow> ptr list \<Rightarrow> panic + heap \<times> Batcher" where
  "NewBatcher h xs = Add h \<lparr>batches = [], batchByObj = Map.empty\<rparr> xs"

section \<open>Sequencing, observations and example states\<close>

definition andThen :: "panic + 'a \<Rightarrow> ('a \<Rightarrow> panic + 'b) \<Rightarrow> panic + 'b" where
  "andThen r f = (case r of Inl e \<Rightarrow> Inl e | Inr v \<Rightarrow> f v)"

text \<open>\<^verbatim>\<open>b.Remove(x); b.Add(x)\<close>, the sequence that the comment of \<^verbatim>\<open>Update\<close> names.\<close>

definition RemoveAdd :: "heap \<Rightarrow> Batcher \<Rightarrow> ptr \<Rightarrow> panic + heap \<times> Batcher" where
  "RemoveAdd h B x = andThen (Remove h B [x]) (\<lambda>(h', B'). Add h' B' [x])"

text \<open>
  What can be observed of a batcher: the member lists of its batches in order, and the
  batches of its list whose cached object is nil (the dirty ones).
\<close>

definition partition_of :: "heap \<Rightarrow> Batcher \<Rightarrow> ptr list list" where
  "partition_of h B = map (\<lambda>p. objects (bts h p)) (batches B)"

definition dirty :: "heap \<Rightarrow> Batcher \<Rightarrow> ptr list" where
  "dirty h B = filter (\<lambda>p. Object (bts h p) = None) (batches B)"

text \<open>
  The invariant of the index for one object: a tracked object is a member of exactly one
  batch of the batch list, that batch is the one the index gives, and the object occurs
  once in its member list.
\<close>

definition trackedOk :: "heap \<Rightarrow> Batcher \<Rightarrow> ptr \<Rightarrow> bool" where
  "trackedOk h B x =
     (case batchByObj B x of
        None \<Rightarrow> True
      | Some p \<Rightarrow>
          filter (\<lambda>q. x \<in> set (objects (bts h q))) (batches B) = [p] \<and>
          count_list (objects (bts h p)) x = 1)"

text \<open>
  Example objects, as \<^verbatim>\<open>NewObject()\<close> and the benchmark's \<^verbatim>\<open>randObject\<close> build them: object 0
  has no mesh; objects 1 and 2 have one empty mesh each; object 3 is object 1 with another
  state; every other pointer holds an object without meshes.  The nil texture slice has
  the empty array 0.
\<close>

definition NewObject :: Object where
  "NewObject = \<lparr>State = 0, Shader = None, Textures = \<lparr>sarr = 0, slen = 0\<rparr>, Meshes = []\<rparr>"

definition zeroBatch :: batch where
  "zeroBatch = \<lparr>Object = None, stateType = 0, shaderType = None,
     textureType = \<lparr>sarr = 0, slen = 0\<rparr>, meshType = None, objects = []\<rparr>"

definition exampleHeap :: heap where
  "exampleHeap =
     \<lparr>objs = (\<lambda>_. NewObject)
         (1 := NewObject\<lparr>Meshes := [NewMesh]\<rparr>,
          2 := NewObject\<lparr>Meshes := [NewMesh]\<rparr>,
          3 := NewObject\<lparr>State := 1, Meshes := [NewMesh]\<rparr>),
      texs = (\<lambda>_. []), texNext = 1, bts = (\<lambda>_. zeroBatch), btNext = 0\<rparr>"

text \<open>
  A heap with textures: objects 1 and 2 have one empty mesh and two textures each, the
  same textures in two arrays of their own.
\<close>

definition texturedHeap :: heap where
  "texturedHeap =
     \<lparr>objs = (\<lambda>_. NewObject)
         (1 := NewObject\<lparr>Textures := \<lparr>sarr = 1, slen = 2\<rparr>, Meshes := [NewMesh]\<rparr>,
          2 := NewObject\<lparr>Textures := \<lparr>sarr = 2, slen = 2\<rparr>, Meshes := [NewMesh]\<rparr>),
      texs = (\<lambda>_. [])(1 := [Some 7, None], 2 := [Some 7, None]),
      texNext = 3, bts = (\<lambda>_. zeroBatch), btNext = 0\<rparr>"

text \<open>
  The client's assignment \<^verbatim>\<open>obj.Textures[i] = t\<close>: a write to the backing array of the
  slice, seen through every slice that shares the array.
\<close>

definition writeTexture :: "heap \<Rightarrow> slice \<Rightarrow> nat \<Rightarrow> ptr option \<Rightarrow> heap" where
  "writeTexture h s i t = h\<lparr>texs := (texs h)(sarr s := (texs h (sarr s))[i := t])\<rparr>"

text \<open>A sequence of such assignments through the same slice.\<close>

definition writeTextures :: "heap \<Rightarrow> slice \<Rightarrow> (nat \<times> ptr option) list \<Rightarrow> heap" where
  "writeTextures h s ws = foldl (\<lambda>h' (i, t). writeTexture h' s i t) h ws"

text \<open>
  Two heaps that differ at most in the cached objects of batches and in arrays allocated
  after the first: the client's objects, the arrays that existed and every batch's key
  and member list are the same, and a cached object that was there is still there.
\<close>

definition sameButCache :: "heap \<Rightarrow> heap \<Rightarrow> bool" where
  "sameButCache h h' \<longleftrightarrow>
     objs h' = objs h \<and> btNext h' = btNext h \<and> texNext h \<le> texNext h' \<and>
     (\<forall>a. a < texNext h \<longrightarrow> texs h' a = texs h a) \<and>
     (\<forall>p. bts h' p = (bts h p)\<lparr>Object := Object (bts h' p)\<rparr>) \<and>
     (\<forall>p. Object (bts h p) \<noteq> None \<longrightarrow> Object (bts h' p) = Object (bts h p))"

text \<open>
  \<open>ob\<close> is what the unchecked merge returns for the members of batch \<open>p\<close>, in a heap
  that differs from \<open>h\<close> at most in caches and later allocations.
\<close>

definition freshlyMerged :: "heap \<Rightarrow> ptr \<Rightarrow> Object \<Rightarrow> bool" where
  "freshlyMerged h p ob \<longleftrightarrow>
     (\<exists>h1 h2. sameButCache h h1 \<and> mergeObjects False h1 (objects (bts h p)) = Inr (h2, ob))"

text \<open>The meshes of the test case \<^verbatim>\<open>append(IndexedMesh, Mesh)\<close> of \<^verbatim>\<open>meshAppendTests\<close>.\<close>

definition testIndexedMesh :: Mesh where
  "testIndexedMesh = NewMesh\<lparr>Vertices := [(0, 1, 2), (3, 4, 5), (6, 7, 8)], Indices := [2, 1, 0]\<rparr>"

definition testPlainMesh :: Mesh where
  "testPlainMesh = NewMesh\<lparr>Vertices := [(8, 7, 6), (5, 4, 3), (2, 1, 0)]\<rparr>"

section \<open>Theorems\<close>

lemmas ex_defs = exampleHeap_def NewObject_def zeroBatch_def NewMesh_def NewBatcher_def
  AddObj_def RemoveObj_def UpdateObj_def newBatch_def addToBatch_def removeFromBatch_def
  removeElem_def clearBatch_def matches_def copyTextures_def sliceElems_def
  newMeshType_def equals_def channelMismatch_def andThen_def RemoveAdd_def
  partition_of_def dirty_def DrawTo_def mergeObjects_def Batch_def canAppend_def
  append_mesh_def appendChannel_def appendIndices_def Rect3Zero_def Let_def

subsection \<open>Mesh append\<close>

text \<open>
  C7: appending the non-indexed mesh with vertices (8,7,6), (5,4,3), (2,1,0) onto the
  indexed mesh with vertices (0,1,2), (3,4,5), (6,7,8) and indices 2, 1, 0 is permitted by
  \<^verbatim>\<open>canAppend\<close> and yields the six vertices in that order and the indices 2, 1, 0, 3, 4, 5:
  the indices 0, 1, 2 synthesized for the second mesh are offset by the first mesh's
  three vertices.
\<close>

theorem append_indexed_plain:
  "canAppend testIndexedMesh testPlainMesh = None \<and>
   (\<exists>m. append_mesh testIndexedMesh testPlainMesh = Inr m \<and>
     Vertices m = [(0, 1, 2), (3, 4, 5), (6, 7, 8), (8, 7, 6), (5, 4, 3), (2, 1, 0)] \<and>
     Indices m = [2, 1, 0, 3, 4, 5])"
  by (simp add: canAppend_def channelMismatch_def newMeshType_def append_mesh_def
      appendChannel_def appendIndices_def testIndexedMesh_def testPlainMesh_def NewMesh_def
      upt_rec)

subsection \<open>Classification and merging\<close>

text \<open>
  C4: \<^verbatim>\<open>matches\<close> is not total.  The batch that \<^verbatim>\<open>NewBatcher\<close> creates for object 0, which
  has no mesh, has a nil mesh type; object 1 has the same shader, textures and state and
  one mesh, and \<^verbatim>\<open>matches\<close> panics on it with a nil dereference: the mesh loop dereferences
  \<^verbatim>\<open>b.meshType\<close> without the nil test that \<^verbatim>\<open>DrawTo\<close> makes.
\<close>

theorem matches_nil_meshType_panics:
  "\<exists>h B. NewBatcher exampleHeap [0] = Inr (h, B) \<and> batches B = [0] \<and>
     meshType (bts h 0) = None \<and> Meshes (objs h 1) = [NewMesh] \<and>
     matches h (bts h 0) 1 = Inl NilDereference"
  by (simp add: ex_defs)

text \<open>
  C6: \<^verbatim>\<open>Batch\<close> does not compare the state, shader or textures of its arguments.
  Objects 1 and 3 differ in their state and have one empty mesh each; \<^verbatim>\<open>Batch\<close> returns
  normally, with the state of the first.
\<close>

theorem Batch_accepts_different_state:
  "State (objs exampleHeap 1) \<noteq> State (objs exampleHeap 3) \<and>
   (\<exists>h ob. Batch exampleHeap [1, 3] = Inr (h, ob) \<and> State ob = State (objs exampleHeap 1))"
  by (simp add: ex_defs)

subsection \<open>Add, Remove and Update\<close>

text \<open>
  The removal loop on a slice that holds the element once removes that occurrence, and
  leaves a slice that does not hold it as it is.
\<close>

lemma removeLoop_done: "\<not> i < n \<Longrightarrow> removeLoop x i n a l = Inr (take l a)"
  by (subst removeLoop.simps) (simp del: removeLoop.simps)

lemma removeLoop_other:
  "i < n \<Longrightarrow> a ! i \<noteq> x \<Longrightarrow> removeLoop x i n a l = removeLoop x (Suc i) n a l"
  by (subst removeLoop.simps) (simp del: removeLoop.simps)

lemma removeLoop_hit:
  "i < n \<Longrightarrow> a ! i = x \<Longrightarrow> Suc i \<le> l \<Longrightarrow>
     removeLoop x i n a l =
       removeLoop x (Suc i) n (take i a @ drop (Suc i) (take l a) @ drop (l - 1) a) (l - 1)"
  by (subst removeLoop.simps) (simp del: removeLoop.simps)

lemma removeLoop_none_left:
  "length a = n \<Longrightarrow> x \<notin> set (drop i a) \<Longrightarrow> removeLoop x i n a l = Inr (take l a)"
proof (induction "n - i" arbitrary: i)
  case 0
  then show ?case by (simp add: removeLoop_done del: removeLoop.simps)
next
  case (Suc k)
  then have lt: "i < n" by simp
  with Suc.prems have "a ! i \<in> set (drop i a)"
    by (metis Cons_nth_drop_Suc list.set_intros(1))
  with Suc.prems have ne: "a ! i \<noteq> x" by auto
  have "set (drop (Suc i) a) \<subseteq> set (drop i a)"
    by (simp add: set_drop_subset_set_drop)
  with Suc.prems have "x \<notin> set (drop (Suc i) a)" by auto
  moreover from Suc.hyps have "k = n - Suc i" by simp
  ultimately have "removeLoop x (Suc i) n a l = Inr (take l a)"
    using Suc.hyps(1) Suc.prems(1) by blast
  with lt ne show ?case by (simp add: removeLoop_other del: removeLoop.simps)
qed

lemma removeLoop_skip:
  "x \<notin> set ys \<Longrightarrow> i \<le> length ys \<Longrightarrow> n = length (ys @ x # zs) \<Longrightarrow>
     removeLoop x i n (ys @ x # zs) l = removeLoop x (length ys) n (ys @ x # zs) l"
proof (induction "length ys - i" arbitrary: i)
  case 0
  then show ?case by (simp del: removeLoop.simps)
next
  case (Suc k)
  then have lt: "i < length ys" by simp
  then have "(ys @ x # zs) ! i = ys ! i" by (simp add: nth_append)
  with lt Suc.prems have ne: "(ys @ x # zs) ! i \<noteq> x" by (metis nth_mem)
  from Suc.hyps have "k = length ys - Suc i" by simp
  with Suc.hyps(1) Suc.prems lt have
    "removeLoop x (Suc i) n (ys @ x # zs) l = removeLoop x (length ys) n (ys @ x # zs) l"
    by (simp del: removeLoop.simps)
  moreover have "i < n" using lt Suc.prems by simp
  ultimately show ?case using ne by (simp add: removeLoop_other del: removeLoop.simps)
qed

lemma removeElem_absent: "x \<notin> set s \<Longrightarrow> removeElem x s = Inr s"
  by (simp add: removeElem_def removeLoop_none_left del: removeLoop.simps)

lemma removeElem_once:
  assumes "x \<notin> set ys" "x \<notin> set zs"
  shows "removeElem x (ys @ x # zs) = Inr (ys @ zs)"
proof -
  let ?a = "ys @ x # zs"
  let ?n = "length ?a"
  let ?a' = "ys @ zs @ [last (x # zs)]"
  have s: "removeLoop x 0 ?n ?a ?n = removeLoop x (length ys) ?n ?a ?n"
    using assms(1) by (rule removeLoop_skip) simp_all
  have a': "take (length ys) ?a @ drop (Suc (length ys)) (take ?n ?a) @ drop (?n - 1) ?a = ?a'"
    by (cases zs rule: rev_cases) simp_all
  have "removeLoop x (length ys) ?n ?a ?n =
      removeLoop x (Suc (length ys)) ?n
        (take (length ys) ?a @ drop (Suc (length ys)) (take ?n ?a) @ drop (?n - 1) ?a) (?n - 1)"
    by (rule removeLoop_hit) simp_all
  then have step: "removeLoop x (length ys) ?n ?a ?n = removeLoop x (Suc (length ys)) ?n ?a' (?n - 1)"
    by (simp only: a')
  have "drop (Suc (length ys)) ?a' = drop 1 (zs @ [last (x # zs)])" by simp
  also have "set \<dots> \<subseteq> set zs" by (cases zs) (auto dest: in_set_dropD)
  finally have "x \<notin> set (drop (Suc (length ys)) ?a')" using assms(2) by auto
  moreover have "length ?a' = ?n" by simp
  ultimately have "removeLoop x (Suc (length ys)) ?n ?a' (?n - 1) = Inr (take (?n - 1) ?a')"
    using removeLoop_none_left by blast
  also have "take (?n - 1) ?a' = ys @ zs" by simp
  finally show ?thesis using s step by (simp add: removeElem_def del: removeLoop.simps)
qed

text \<open>
  \<^verbatim>\<open>Remove\<close> of a tracked object in general.  From a batch with other members the
  object is taken out of the member list and out of the index, and the cache is cleared.
  When the object is the only member, the batch is taken out of the batch list and
  nothing else changes.
\<close>

lemma RemoveObj_member:
  assumes "batchByObj B x = Some p" "objects (bts h p) = ys @ x # zs"
    "x \<notin> set ys" "x \<notin> set zs" "ys @ zs \<noteq> []"
  shows "RemoveObj h B x =
     Inr (h\<lparr>bts := (bts h)(p := (bts h p)\<lparr>objects := ys @ zs, Object := None\<rparr>)\<rparr>,
          B\<lparr>batchByObj := (batchByObj B)(x := None)\<rparr>)"
proof -
  from assms(2,5) have "length (objects (bts h p)) \<noteq> 1" by (cases ys; cases zs) simp_all
  moreover from assms have "removeElem x (objects (bts h p)) = Inr (ys @ zs)"
    by (simp add: removeElem_once)
  ultimately show ?thesis using assms(1)
    by (simp add: RemoveObj_def removeFromBatch_def Let_def)
qed

lemma RemoveObj_sole:
  assumes "batchByObj B x = Some p" "objects (bts h p) = [x]"
    "batches B = ps @ p # qs" "p \<notin> set ps" "p \<notin> set qs"
  shows "RemoveObj h B x = Inr (h, B\<lparr>batches := ps @ qs\<rparr>)"
proof -
  from assms(3,4,5) have "removeElem p (batches B) = Inr (ps @ qs)"
    by (simp add: removeElem_once)
  then show ?thesis using assms(1,2)
    by (simp add: RemoveObj_def removeFromBatch_def Let_def)
qed

text \<open>
  C2: \<^verbatim>\<open>Remove\<close> of the only member of a batch.  After \<^verbatim>\<open>NewBatcher\<close> on object 1, the
  object is the only member of batch 0.  \<^verbatim>\<open>Remove\<close> deletes the batch from the batch list
  and returns before the index is updated: the index still maps the object to the batch,
  and the batch's member list still holds it.
\<close>

theorem Remove_sole_member_keeps_index:
  "\<exists>h B h' B'. NewBatcher exampleHeap [1] = Inr (h, B) \<and> batchByObj B 1 = Some 0 \<and>
     batches B = [0] \<and> objects (bts h 0) = [1] \<and>
     Remove h B [1] = Inr (h', B') \<and>
     batches B' = [] \<and> batchByObj B' 1 = Some 0 \<and> objects (bts h' 0) = [1]"
  by (simp add: ex_defs)

text \<open>
  C3: the invariant of the index is not preserved by \<^verbatim>\<open>Remove\<close>.  It holds for every
  object after \<^verbatim>\<open>NewBatcher\<close> on object 1; after \<^verbatim>\<open>Remove\<close> of object 1 the index maps
  the object to batch 0, which is no longer in the batch list.
\<close>

theorem Remove_breaks_invariant:
  "\<exists>h B h' B'. NewBatcher exampleHeap [1] = Inr (h, B) \<and> (\<forall>x. trackedOk h B x) \<and>
     Remove h B [1] = Inr (h', B') \<and> \<not> trackedOk h' B' 1 \<and>
     batchByObj B' 1 = Some 0 \<and> 0 \<notin> set (batches B')"
  by (simp add: ex_defs trackedOk_def)

text \<open>
  C1: \<^verbatim>\<open>Update\<close> and \<^verbatim>\<open>Remove\<close> followed by \<^verbatim>\<open>Add\<close> leave different partitions.  In the
  batcher of object 1 alone: for the tracked object 1, \<^verbatim>\<open>Update\<close> keeps the batch with
  its member, while \<^verbatim>\<open>Remove\<close> deletes the batch and \<^verbatim>\<open>Add\<close>, finding the object still in
  the index, adds nothing; for the untracked object 2, of the same type as object 1,
  \<^verbatim>\<open>Update\<close> creates a second batch without a search, while \<^verbatim>\<open>Add\<close> places it in the batch
  of object 1.
\<close>

theorem Update_differs_from_Remove_Add:
  "\<exists>h B. NewBatcher exampleHeap [1] = Inr (h, B) \<and>
     (\<exists>hu Bu hr Br. Update h B [1] = Inr (hu, Bu) \<and> RemoveAdd h B 1 = Inr (hr, Br) \<and>
        partition_of hu Bu = [[1]] \<and> partition_of hr Br = [] \<and>
        dirty hu Bu = [0] \<and> dirty hr Br = [] \<and>
        batchByObj Bu 1 = Some 0 \<and> batchByObj Br 1 = Some 0) \<and>
     batchByObj B 2 = None \<and>
     (\<exists>hu Bu hr Br. Update h B [2] = Inr (hu, Bu) \<and> RemoveAdd h B 2 = Inr (hr, Br) \<and>
        partition_of hu Bu = [[1], [2]] \<and> partition_of hr Br = [[1, 2]] \<and>
        batchByObj Bu 2 = Some 1 \<and> batchByObj Br 2 = Some 0)"
  by (simp add: ex_defs)

text \<open>
  C8: \<^verbatim>\<open>Add\<close> twice of an untracked object.  In the batcher of object 0, which has no
  mesh, object 1 is untracked; the first \<^verbatim>\<open>Add\<close> of object 1 panics in the search for a
  batch (the nil dereference of \<^verbatim>\<open>matches\<close>), so the object becomes a member of no batch.
\<close>

theorem Add_panics_on_nil_meshType:
  "\<exists>h B. NewBatcher exampleHeap [0] = Inr (h, B) \<and> batchByObj B 1 = None \<and>
     andThen (Add h B [1]) (\<lambda>(h1, B1). Add h1 B1 [1]) = Inl NilDereference"
  by (simp add: ex_defs)

text \<open>
  When the first \<^verbatim>\<open>Add\<close> of an untracked object returns, the second only clears the cache
  of the object's batch: the object is a member of exactly that batch of the batch list,
  once.
\<close>

lemma findBatch_Some_mem: "findBatch h ps x = Inr (Some p) \<Longrightarrow> p \<in> set ps"
  by (induction ps) (auto split: sum.splits bool.splits)

lemma filter_only:
  "distinct ps \<Longrightarrow> p \<in> set ps \<Longrightarrow> (\<And>q. q \<in> set ps \<Longrightarrow> P q \<longleftrightarrow> q = p) \<Longrightarrow> filter P ps = [p]"
proof (induction ps)
  case Nil
  then show ?case by simp
next
  case (Cons a ps)
  show ?case
  proof (cases "a = p")
    case True
    with Cons.prems have "\<And>q. q \<in> set ps \<Longrightarrow> \<not> P q" by auto
    then have "filter P ps = []" by (simp add: filter_empty_conv)
    with True Cons.prems show ?thesis by simp
  next
    case False
    with Cons.prems have "filter P ps = [p]" by (intro Cons.IH) auto
    with False Cons.prems show ?thesis by simp
  qed
qed

lemma AddObj_twice:
  assumes un: "batchByObj B x = None"
    and nomem: "\<forall>p\<in>set (batches B). x \<notin> set (objects (bts h p))"
    and dist: "distinct (batches B)"
    and alloc: "\<forall>p\<in>set (batches B). p < btNext h"
    and add: "AddObj h B x = Inr (h1, B1)"
  shows "\<exists>p. batchByObj B1 x = Some p \<and>
            AddObj h1 B1 x = Inr (clearBatch h1 p, B1) \<and>
            filter (\<lambda>q. x \<in> set (objects (bts (clearBatch h1 p) q))) (batches B1) = [p] \<and>
            count_list (objects (bts (clearBatch h1 p) p)) x = 1 \<and>
            Object (bts (clearBatch h1 p) p) = None"
proof (cases "findBatch h (batches B) x")
  case (Inl e)
  with add un show ?thesis by (simp add: AddObj_def)
next
  case (Inr r)
  show ?thesis
  proof (cases r)
    case None
    let ?p = "btNext h"
    from add un Inr None have nb: "newBatch h B x = (h1, B1)" by (simp add: AddObj_def)
    then have B1: "B1 = B\<lparr>batches := batches B @ [?p], batchByObj := (batchByObj B)(x \<mapsto> ?p)\<rparr>"
      and hp: "objects (bts h1 ?p) = [x]"
      and ho: "\<And>q. q \<noteq> ?p \<Longrightarrow> bts h1 q = bts h q"
      by (auto simp: newBatch_def copyTextures_def Let_def)
    have idx: "batchByObj B1 x = Some ?p" by (simp add: B1)
    have old: "filter (\<lambda>q. x \<in> set (objects (bts (clearBatch h1 ?p) q))) (batches B) = []"
      using nomem alloc ho by (auto simp: filter_empty_conv clearBatch_def)
    have "filter (\<lambda>q. x \<in> set (objects (bts (clearBatch h1 ?p) q))) (batches B1) = [?p]"
      using old hp by (simp add: B1 clearBatch_def)
    moreover have "AddObj h1 B1 x = Inr (clearBatch h1 ?p, B1)" using idx by (simp add: AddObj_def)
    ultimately show ?thesis using idx hp by (auto simp: clearBatch_def)
  next
    case (Some p)
    from add un Inr Some have ab: "addToBatch h B x p = (h1, B1)" by (simp add: AddObj_def)
    from Inr Some have mem: "p \<in> set (batches B)" by (simp add: findBatch_Some_mem)
    from ab have B1: "B1 = B\<lparr>batchByObj := (batchByObj B)(x \<mapsto> p)\<rparr>"
      and hp: "objects (bts h1 p) = objects (bts h p) @ [x]"
      and ho: "\<And>q. q \<noteq> p \<Longrightarrow> bts h1 q = bts h q"
      by (auto simp: addToBatch_def)
    have idx: "batchByObj B1 x = Some p" by (simp add: B1)
    have "filter (\<lambda>q. x \<in> set (objects (bts (clearBatch h1 p) q))) (batches B) = [p]"
    proof (rule filter_only[OF dist mem])
      fix q assume "q \<in> set (batches B)"
      then show "x \<in> set (objects (bts (clearBatch h1 p) q)) \<longleftrightarrow> q = p"
        using nomem ho hp by (cases "q = p") (auto simp: clearBatch_def)
    qed
    then have f: "filter (\<lambda>q. x \<in> set (objects (bts (clearBatch h1 p) q))) (batches B1) = [p]"
      by (simp add: B1)
    from nomem mem have "count_list (objects (bts h p)) x = 0" by (simp add: count_list_0_iff)
    then have c: "count_list (objects (bts (clearBatch h1 p) p)) x = 1"
      by (simp add: hp clearBatch_def)
    have "AddObj h1 B1 x = Inr (clearBatch h1 p, B1)" using idx by (simp add: AddObj_def)
    then show ?thesis using idx f c by (auto simp: clearBatch_def)
  qed
qed

subsection \<open>DrawTo\<close>

text \<open>
  C5: \<^verbatim>\<open>DrawTo\<close> on a batch whose first member has no mesh.  \<^verbatim>\<open>NewBatcher\<close> on objects 1
  and 0, \<^verbatim>\<open>Remove\<close> of object 1 and \<^verbatim>\<open>Add\<close> of object 1 leave one batch with a mesh type,
  a nil cache and the members 0, 1.  \<^verbatim>\<open>DrawTo\<close> calls the unchecked merge, which never
  copies a first mesh (object 0 has none) and appends the mesh of object 1 to a nil
  \<^verbatim>\<open>batchMesh\<close>: a panic, and no \<^verbatim>\<open>Draw\<close>.
\<close>

theorem DrawTo_panics_zero_mesh_first:
  "\<exists>h1 B1 h2 B2 h3 B3. NewBatcher exampleHeap [1, 0] = Inr (h1, B1) \<and>
     Remove h1 B1 [1] = Inr (h2, B2) \<and> Add h2 B2 [1] = Inr (h3, B3) \<and>
     batches B3 = [0] \<and> meshType (bts h3 0) \<noteq> None \<and> Object (bts h3 0) = None \<and>
     objects (bts h3 0) = [0, 1] \<and> DrawTo h3 B3 = Inl NilDereference"
  by (simp add: ex_defs)

lemma mergeObjects_heap:
  assumes "mergeObjects c h ps = Inr (h1, ob)"
  shows "\<exists>ts. h1 = h\<lparr>texs := (texs h)(texNext h := ts), texNext := Suc (texNext h)\<rparr>"
  using assms
  by (auto simp: mergeObjects_def copyTextures_def Let_def split: list.splits sum.splits)

lemma sameButCache_refl: "sameButCache h h"
  by (simp add: sameButCache_def)

lemma sameButCache_trans:
  "sameButCache h h1 \<Longrightarrow> sameButCache h1 h2 \<Longrightarrow> sameButCache h h2"
  unfolding sameButCache_def
  apply (intro conjI allI impI)
       apply simp
      apply simp
     apply simp
    apply simp
   apply (metis (no_types, lifting) batch.surjective batch.update_convs(1))
  apply metis
  done

lemma merge_step_sameButCache:
  assumes "mergeObjects False h (objects (bts h p)) = Inr (h1, ob)" "Object (bts h p) = None"
  shows "sameButCache h (h1\<lparr>bts := (bts h1)(p := (bts h1 p)\<lparr>Object := Some ob\<rparr>)\<rparr>)"
proof -
  from mergeObjects_heap[OF assms(1)] obtain ts where
    h1: "h1 = h\<lparr>texs := (texs h)(texNext h := ts), texNext := Suc (texNext h)\<rparr>" by blast
  show ?thesis using assms(2) by (simp add: sameButCache_def h1)
qed

lemma drawBatches_sameButCache:
  "drawBatches h ps = Inr (h', ds) \<Longrightarrow> sameButCache h h'"
proof (induction ps arbitrary: h h' ds)
  case Nil
  then show ?case by (simp add: sameButCache_refl)
next
  case (Cons p ps)
  show ?case
  proof (cases "meshType (bts h p) = None")
    case True
    with Cons.prems obtain ds' where "drawBatches h ps = Inr (h', ds')"
      by (auto simp: Let_def split: sum.splits)
    then show ?thesis by (rule Cons.IH)
  next
    case False
    show ?thesis
    proof (cases "Object (bts h p)")
      case (Some ob)
      with False Cons.prems obtain ds' where "drawBatches h ps = Inr (h', ds')"
        by (auto simp: Let_def split: sum.splits)
      then show ?thesis by (rule Cons.IH)
    next
      case None
      with False Cons.prems obtain h1 ob ds' where
        m: "mergeObjects False h (objects (bts h p)) = Inr (h1, ob)" and
        d: "drawBatches (h1\<lparr>bts := (bts h1)(p := (bts h1 p)\<lparr>Object := Some ob\<rparr>)\<rparr>) ps = Inr (h', ds')"
        by (auto simp: Let_def split: sum.splits)
      from merge_step_sameButCache[OF m None] Cons.IH[OF d]
      show ?thesis by (rule sameButCache_trans)
    qed
  qed
qed


lemma sameButCache_fields:
  assumes "sameButCache h h'"
  shows "objects (bts h' p) = objects (bts h p)" "meshType (bts h' p) = meshType (bts h p)"
    "stateType (bts h' p) = stateType (bts h p)" "shaderType (bts h' p) = shaderType (bts h p)"
    "textureType (bts h' p) = textureType (bts h p)"
proof -
  from assms have e: "bts h' p = (bts h p)\<lparr>Object := Object (bts h' p)\<rparr>"
    by (simp add: sameButCache_def)
  show "objects (bts h' p) = objects (bts h p)" by (subst e) simp
  show "meshType (bts h' p) = meshType (bts h p)" by (subst e) simp
  show "stateType (bts h' p) = stateType (bts h p)" by (subst e) simp
  show "shaderType (bts h' p) = shaderType (bts h p)" by (subst e) simp
  show "textureType (bts h' p) = textureType (bts h p)" by (subst e) simp
qed

lemma sameButCache_kept:
  "sameButCache h h' \<Longrightarrow> Object (bts h p) = Some ob \<Longrightarrow> Object (bts h' p) = Some ob"
  by (simp add: sameButCache_def)

lemma drawBatches_changed:
  "drawBatches h ps = Inr (h', ds) \<Longrightarrow> Object (bts h' q) \<noteq> Object (bts h q) \<Longrightarrow>
     q \<in> set ps \<and> Object (bts h q) = None \<and> meshType (bts h q) \<noteq> None \<and>
     (\<exists>ob. Object (bts h' q) = Some ob \<and> freshlyMerged h q ob)"
proof (induction ps arbitrary: h h' ds)
  case Nil
  then show ?case by simp
next
  case (Cons p ps)
  show ?case
  proof (cases "meshType (bts h p) = None")
    case True
    with Cons.prems(1) obtain ds' where "drawBatches h ps = Inr (h', ds')"
      by (auto simp: Let_def split: sum.splits)
    from Cons.IH[OF this Cons.prems(2)] show ?thesis by simp
  next
    case False
    show ?thesis
    proof (cases "Object (bts h p)")
      case (Some ob)
      with False Cons.prems(1) obtain ds' where "drawBatches h ps = Inr (h', ds')"
        by (auto simp: Let_def split: sum.splits)
      from Cons.IH[OF this Cons.prems(2)] show ?thesis by simp
    next
      case None
      with False Cons.prems(1) obtain h1 ob ds' where
        m: "mergeObjects False h (objects (bts h p)) = Inr (h1, ob)" and
        d: "drawBatches (h1\<lparr>bts := (bts h1)(p := (bts h1 p)\<lparr>Object := Some ob\<rparr>)\<rparr>) ps = Inr (h', ds')"
        by (auto simp: Let_def split: sum.splits)
      let ?h2 = "h1\<lparr>bts := (bts h1)(p := (bts h1 p)\<lparr>Object := Some ob\<rparr>)\<rparr>"
      have s1: "sameButCache h ?h2" by (rule merge_step_sameButCache[OF m None])
      have s2: "sameButCache ?h2 h'" by (rule drawBatches_sameButCache[OF d])
      show ?thesis
      proof (cases "q = p")
        case True
        have "Object (bts ?h2 p) = Some ob" by simp
        from sameButCache_kept[OF s2 this] have "Object (bts h' p) = Some ob" .
        moreover have "freshlyMerged h p ob"
          unfolding freshlyMerged_def using m sameButCache_refl by blast
        ultimately show ?thesis using True None False by simp
      next
        case qp: False
        from mergeObjects_heap[OF m] obtain ts where
          h1: "h1 = h\<lparr>texs := (texs h)(texNext h := ts), texNext := Suc (texNext h)\<rparr>" by blast
        have same: "bts ?h2 q = bts h q" using qp by (simp add: h1)
        with Cons.prems(2) have "Object (bts h' q) \<noteq> Object (bts ?h2 q)" by simp
        from Cons.IH[OF d this] obtain ob' where
          q: "q \<in> set ps" "Object (bts ?h2 q) = None" "meshType (bts ?h2 q) \<noteq> None"
            "Object (bts h' q) = Some ob'" "freshlyMerged ?h2 q ob'" by blast
        from q(5) obtain k1 k2 where
          k: "sameButCache ?h2 k1" "mergeObjects False k1 (objects (bts ?h2 q)) = Inr (k2, ob')"
          unfolding freshlyMerged_def by blast
        have "freshlyMerged h q ob'"
          unfolding freshlyMerged_def
          using sameButCache_trans[OF s1 k(1)] k(2) same by auto
        with q same show ?thesis by simp
      qed
    qed
  qed
qed

text \<open>
  When \<^verbatim>\<open>DrawTo\<close> returns, the calls of \<^verbatim>\<open>Draw\<close> are, batch by batch in the order of the
  batch list, the members of a batch with a nil mesh type, and the cached merged object
  of any other batch.
\<close>

lemma drawBatches_draws:
  "drawBatches h ps = Inr (h', ds) \<Longrightarrow>
     ds = concat (map (\<lambda>p. if meshType (bts h' p) = None
                             then map DrawObject (objects (bts h' p))
                             else [DrawMerged (the (Object (bts h' p)))]) ps)"
proof (induction ps arbitrary: h h' ds)
  case Nil
  then show ?case by simp
next
  case (Cons p ps)
  have s: "sameButCache h h'" by (rule drawBatches_sameButCache[OF Cons.prems])
  note fl = sameButCache_fields[OF s, of p]
  show ?case
  proof (cases "meshType (bts h p) = None")
    case True
    with Cons.prems obtain ds' where d: "drawBatches h ps = Inr (h', ds')"
      and e: "ds = map DrawObject (objects (bts h p)) @ ds'"
      by (auto simp: Let_def split: sum.splits)
    from Cons.IH[OF d] e True fl show ?thesis by simp
  next
    case False
    show ?thesis
    proof (cases "Object (bts h p)")
      case (Some ob)
      with False Cons.prems obtain ds' where d: "drawBatches h ps = Inr (h', ds')"
        and e: "ds = DrawMerged ob # ds'"
        by (auto simp: Let_def split: sum.splits)
      from sameButCache_kept[OF s Some] have "Object (bts h' p) = Some ob" .
      with Cons.IH[OF d] e False fl show ?thesis by auto
    next
      case None
      with False Cons.prems obtain h1 ob ds' where
        m: "mergeObjects False h (objects (bts h p)) = Inr (h1, ob)" and
        d: "drawBatches (h1\<lparr>bts := (bts h1)(p := (bts h1 p)\<lparr>Object := Some ob\<rparr>)\<rparr>) ps = Inr (h', ds')"
        and e: "ds = DrawMerged ob # ds'"
        by (auto simp: Let_def split: sum.splits)
      let ?h2 = "h1\<lparr>bts := (bts h1)(p := (bts h1 p)\<lparr>Object := Some ob\<rparr>)\<rparr>"
      have "Object (bts ?h2 p) = Some ob" by simp
      from sameButCache_kept[OF drawBatches_sameButCache[OF d] this]
      have "Object (bts h' p) = Some ob" .
      with Cons.IH[OF d] e False fl show ?thesis by auto
    qed
  qed
qed

text \<open>
  C9: \<^verbatim>\<open>DrawTo\<close> never changes batch membership.  When it returns, the batcher's batch
  list and index are the ones it was called with, the client's objects and the texture
  arrays that existed are unchanged, and every batch has the member list (in order) and
  the key it had; a batch whose cached object changed is in the batch list, had a nil
  cache, and now caches an object freshly returned by the unchecked merge of its members.
\<close>

theorem DrawTo_frame:
  assumes "DrawTo h B = Inr (h', B', ds)"
  shows "B' = B \<and> objs h' = objs h \<and>
         (\<forall>a. a < texNext h \<longrightarrow> texs h' a = texs h a) \<and>
         (\<forall>p. objects (bts h' p) = objects (bts h p) \<and>
              stateType (bts h' p) = stateType (bts h p) \<and>
              shaderType (bts h' p) = shaderType (bts h p) \<and>
              textureType (bts h' p) = textureType (bts h p) \<and>
              meshType (bts h' p) = meshType (bts h p)) \<and>
         (\<forall>p. Object (bts h' p) \<noteq> Object (bts h p) \<longrightarrow>
              p \<in> set (batches B) \<and> Object (bts h p) = None \<and>
              (\<exists>ob. Object (bts h' p) = Some ob \<and> freshlyMerged h p ob))"
proof -
  from assms obtain d: "drawBatches h (batches B) = Inr (h', ds)" and b: "B' = B"
    by (auto simp: DrawTo_def split: sum.splits)
  have s: "sameButCache h h'" by (rule drawBatches_sameButCache[OF d])
  have "objs h' = objs h" "\<forall>a. a < texNext h \<longrightarrow> texs h' a = texs h a"
    using s by (simp_all add: sameButCache_def)
  moreover have "\<forall>p. Object (bts h' p) \<noteq> Object (bts h p) \<longrightarrow>
              p \<in> set (batches B) \<and> Object (bts h p) = None \<and>
              (\<exists>ob. Object (bts h' p) = Some ob \<and> freshlyMerged h p ob)"
    using drawBatches_changed[OF d] by blast
  ultimately show ?thesis using b sameButCache_fields[OF s] by simp
qed


theorem DrawTo_frame_witness:
  "\<exists>h B h' ds. NewBatcher exampleHeap [0, 3] = Inr (h, B) \<and>
      DrawTo h B = Inr (h', B, ds) \<and> batches B = [0, 1] \<and>
      objects (bts h' 0) = [0] \<and> objects (bts h' 1) = [3] \<and>
      Object (bts h' 0) = None \<and> Object (bts h 1) = None \<and>
      (\<exists>ob. Object (bts h' 1) = Some ob \<and> freshlyMerged h 1 ob)"
proof -
  have "\<exists>h B h' ds. NewBatcher exampleHeap [0, 3] = Inr (h, B) \<and>
      DrawTo h B = Inr (h', B, ds) \<and> batches B = [0, 1] \<and>
      objects (bts h 0) = [0] \<and> objects (bts h 1) = [3] \<and>
      Object (bts h' 0) = None \<and> Object (bts h 1) = None \<and> Object (bts h' 1) \<noteq> None"
    by (simp add: ex_defs)
  then obtain h B h' ds where
    nb: "NewBatcher exampleHeap [0, 3] = Inr (h, B)" and
    dr: "DrawTo h B = Inr (h', B, ds)" and
    f: "batches B = [0, 1]" "objects (bts h 0) = [0]" "objects (bts h 1) = [3]"
      "Object (bts h' 0) = None" "Object (bts h 1) = None" "Object (bts h' 1) \<noteq> None"
    by blast
  note t = DrawTo_frame[OF dr]
  from t f have o: "objects (bts h' 0) = [0]" "objects (bts h' 1) = [3]" by simp_all
  from f have "Object (bts h' 1) \<noteq> Object (bts h 1)" by simp
  with t have "\<exists>ob. Object (bts h' 1) = Some ob \<and> freshlyMerged h 1 ob" by blast
  with nb dr f o show ?thesis by blast
qed

subsection \<open>The texture key of a new batch\<close>

lemma matches_cong_heap:
  assumes "objs h2 = objs h1"
    and "sliceElems h2 (textureType b) = sliceElems h1 (textureType b)"
    and "sliceElems h2 (Textures (objs h1 y)) = sliceElems h1 (Textures (objs h1 y))"
  shows "matches h2 b y = matches h1 b y"
  unfolding matches_def Let_def assms ..

lemma writeTextures_frame:
  "objs (writeTextures h s ws) = objs h \<and> bts (writeTextures h s ws) = bts h \<and>
   texNext (writeTextures h s ws) = texNext h \<and> btNext (writeTextures h s ws) = btNext h \<and>
   (\<forall>a. a \<noteq> sarr s \<longrightarrow> texs (writeTextures h s ws) a = texs h a)"
  unfolding writeTextures_def
  by (induction ws arbitrary: h) (auto simp: writeTexture_def)

text \<open>
  C10: the texture key of a new batch is a copy.  \<^verbatim>\<open>newBatch\<close> on object \<open>x\<close>, whose
  texture slice lies in allocated memory, gives the batch an array of its own, different
  from the object's.  After the client replaces elements of the object's slice in place,
  the batch is unchanged, its texture key still holds the elements the object had when
  the batch was created, and the batch matches every object whose own textures were not
  written exactly as it did before.
\<close>

theorem newBatch_copies_textures:
  assumes alloc: "sarr (Textures (objs h x)) < texNext h"
    and inside: "slen (Textures (objs h x)) \<le> length (texs h (sarr (Textures (objs h x))))"
    and nb: "newBatch h B x = (h1, B1)"
    and wr: "h2 = writeTextures h1 (Textures (objs h1 x)) ws"
  shows "batchByObj B1 x = Some (btNext h) \<and>
         bts h2 (btNext h) = bts h1 (btNext h) \<and>
         sarr (textureType (bts h1 (btNext h))) \<noteq> sarr (Textures (objs h x)) \<and>
         sliceElems h2 (textureType (bts h2 (btNext h))) = sliceElems h (Textures (objs h x)) \<and>
         (\<forall>y. sarr (Textures (objs h2 y)) \<noteq> sarr (Textures (objs h x)) \<longrightarrow>
              matches h2 (bts h2 (btNext h)) y = matches h1 (bts h1 (btNext h)) y)"
proof -
  let ?s = "Textures (objs h x)"
  let ?p = "btNext h"
  from nb have h1: "h1 = h\<lparr>texs := (texs h)(texNext h := take (slen ?s) (sliceElems h ?s @ replicate (slen ?s) None)),
                         texNext := Suc (texNext h),
                         bts := (bts h)(?p := \<lparr>Object = None, stateType = State (objs h x),
                             shaderType = Shader (objs h x),
                             textureType = \<lparr>sarr = texNext h, slen = slen ?s\<rparr>,
                             meshType = (case Meshes (objs h x) of [] \<Rightarrow> None
                                | first # _ \<Rightarrow> sharedMeshType (newMeshType first) (Meshes (objs h x))),
                             objects = [x]\<rparr>),
                         btNext := Suc ?p\<rparr>"
    and B1: "B1 = B\<lparr>batches := batches B @ [?p], batchByObj := (batchByObj B)(x \<mapsto> ?p)\<rparr>"
    by (auto simp: newBatch_def copyTextures_def Let_def)
  have o1: "objs h1 = objs h" by (simp add: h1)
  note fr = writeTextures_frame[of h1 "Textures (objs h1 x)" ws, folded wr]
  have o: "objs h2 = objs h" using fr o1 by simp
  have b: "bts h2 ?p = bts h1 ?p" using fr by simp
  have tx: "texs h2 a = texs h1 a" if "a \<noteq> sarr ?s" for a using fr that o1 by simp
  have tt: "textureType (bts h1 ?p) = \<lparr>sarr = texNext h, slen = slen ?s\<rparr>" by (simp add: h1)
  have ne: "sarr (textureType (bts h1 ?p)) \<noteq> sarr ?s" using alloc by (simp add: tt)
  have len: "length (sliceElems h ?s) = slen ?s" using inside by (simp add: sliceElems_def)
  have k2: "sliceElems h2 (textureType (bts h1 ?p)) = sliceElems h1 (textureType (bts h1 ?p))"
    using tx[OF ne] by (simp add: sliceElems_def)
  have k1: "sliceElems h1 (textureType (bts h1 ?p)) = sliceElems h ?s"
    using len by (simp add: tt sliceElems_def h1)
  have m: "matches h2 (bts h1 ?p) y = matches h1 (bts h1 ?p) y"
    if "sarr (Textures (objs h2 y)) \<noteq> sarr ?s" for y
  proof (rule matches_cong_heap)
    show "objs h2 = objs h1" by (simp add: o o1)
    show "sliceElems h2 (textureType (bts h1 ?p)) = sliceElems h1 (textureType (bts h1 ?p))"
      by (rule k2)
    from that have "sarr (Textures (objs h1 y)) \<noteq> sarr ?s" by (simp add: o o1)
    from tx[OF this]
    show "sliceElems h2 (Textures (objs h1 y)) = sliceElems h1 (Textures (objs h1 y))"
      by (simp add: sliceElems_def)
  qed
  show ?thesis using B1 b ne k1 k2 m by simp
qed

theorem newBatch_copies_textures_witness:
  "\<exists>h1 B1 h2. newBatch texturedHeap \<lparr>batches = [], batchByObj = Map.empty\<rparr> 1 = (h1, B1) \<and>
      h2 = writeTextures h1 (Textures (objs h1 1)) [(0, Some 9), (1, Some 4)] \<and>
      sliceElems h2 (Textures (objs h2 1)) = [Some 9, Some 4] \<and>
      sliceElems h2 (textureType (bts h2 0)) = [Some 7, None] \<and>
      matches h1 (bts h1 0) 2 = Inr True \<and> matches h2 (bts h2 0) 2 = Inr True \<and>
      matches h1 (bts h1 0) 1 = Inr True \<and> matches h2 (bts h2 0) 1 = Inr False"
proof -
  obtain h1 B1 where nb: "newBatch texturedHeap \<lparr>batches = [], batchByObj = Map.empty\<rparr> 1 = (h1, B1)"
    by (cases "newBatch texturedHeap \<lparr>batches = [], batchByObj = Map.empty\<rparr> 1") blast
  define h2 where "h2 = writeTextures h1 (Textures (objs h1 1)) [(0, Some 9), (1, Some 4)]"
  have a: "sarr (Textures (objs texturedHeap 1)) < texNext texturedHeap"
    by (simp add: texturedHeap_def NewObject_def)
  have b: "slen (Textures (objs texturedHeap 1))
      \<le> length (texs texturedHeap (sarr (Textures (objs texturedHeap 1))))"
    by (simp add: texturedHeap_def NewObject_def)
  note t = newBatch_copies_textures[OF a b nb h2_def]
  have p: "btNext texturedHeap = 0" by (simp add: texturedHeap_def)
  have e: "h1 = fst (newBatch texturedHeap \<lparr>batches = [], batchByObj = Map.empty\<rparr> 1)"
    by (simp only: nb fst_conv)
  from t have "sliceElems h2 (textureType (bts h2 (btNext texturedHeap)))
      = sliceElems texturedHeap (Textures (objs texturedHeap 1))"
    by blast
  also have "\<dots> = [Some 7, None]"
    by (simp add: sliceElems_def texturedHeap_def NewObject_def)
  finally have k: "sliceElems h2 (textureType (bts h2 0)) = [Some 7, None]"
    unfolding p .
  have m1: "matches h1 (bts h1 0) 2 = Inr True" "matches h1 (bts h1 0) 1 = Inr True"
    by (simp_all add: e ex_defs texturedHeap_def)
  have "sarr (Textures (objs h2 2)) \<noteq> sarr (Textures (objs texturedHeap 1))"
    by (simp add: h2_def e ex_defs texturedHeap_def writeTexture_def writeTextures_def)
  with t have "matches h2 (bts h2 (btNext texturedHeap)) 2 = matches h1 (bts h1 (btNext texturedHeap)) 2"
    by blast
  then have m2: "matches h2 (bts h2 0) 2 = matches h1 (bts h1 0) 2"
    unfolding p .
  have w: "sliceElems h2 (Textures (objs h2 1)) = [Some 9, Some 4]"
    "matches h2 (bts h2 0) 1 = Inr False"
    by (simp_all add: h2_def e ex_defs texturedHeap_def writeTexture_def writeTextures_def)
  show ?thesis using nb h2_def k m1 m2 w by simp
qed

end
